theory Spec2Isabelle
  imports Main "HOL-Library.AList" "HOL-Library.Sublist"
begin

section \<open>Strings\<close>

text \<open>
  Python strings are modelled as \<open>string\<close> (lists of characters). \<open>str.strip()\<close> removes
  leading and trailing whitespace; the model knows the ASCII whitespace characters
  (tab, line feed, vertical tab, form feed, carriage return, the separators 0x1C to 0x1F and
  the space). \<open>len\<close> is \<open>length\<close>, \<open>a in b\<close> on strings is \<open>contains a b\<close>, and
  \<open>sep.join(xs)\<close> is \<open>join sep xs\<close>.
\<close>

definition is_space :: "char \<Rightarrow> bool" where
  "is_space c = (c \<in> {CHR 0x09, CHR 0x0A, CHR 0x0B, CHR 0x0C, CHR 0x0D,
                       CHR 0x1C, CHR 0x1D, CHR 0x1E, CHR 0x1F, CHR '' ''})"

definition strip :: "string \<Rightarrow> string" where
  "strip s = rev (dropWhile is_space (rev (dropWhile is_space s)))"

fun contains :: "string \<Rightarrow> string \<Rightarrow> bool" where
  "contains needle [] = (needle = [])"
| "contains needle (c # cs) = (prefix needle (c # cs) \<or> contains needle cs)"

fun join :: "string \<Rightarrow> string list \<Rightarrow> string" where
  "join sep [] = []"
| "join sep [x] = x"
| "join sep (x # y # ys) = x @ sep @ join sep (y # ys)"

section \<open>The table: rows and cells\<close>

text \<open>
  \<open>pd.read_csv(..., dtype=str)\<close> yields a frame whose cells are either a \<open>str\<close> or the
  missing value NaN. A row has the seven columns the program reads. The record is
  polymorphic in the cell type: a frame as read has cells of type \<open>cell\<close>, and the frame
  after \<open>fillna('')\<close> has cells of type \<open>string\<close>.
\<close>

datatype cell = NaN | Str string

record 'c row =
  HEADER :: 'c
  SUB :: 'c
  ITEM :: 'c
  DESCRIPTION :: 'c
  IMPORT_RATE :: 'c
  EKSPORT_RATE :: 'c
  SST :: 'c

definition map_row :: "('a \<Rightarrow> 'b) \<Rightarrow> 'a row \<Rightarrow> 'b row" where
  "map_row f r = \<lparr>HEADER = f (HEADER r), SUB = f (SUB r), ITEM = f (ITEM r),
     DESCRIPTION = f (DESCRIPTION r), IMPORT_RATE = f (IMPORT_RATE r),
     EKSPORT_RATE = f (EKSPORT_RATE r), SST = f (SST r)\<rparr>"

text \<open>\<open>str(x)\<close> of a cell, \<open>pd.isna(x)\<close>, and the cell-wise effect of \<open>fillna('')\<close>.\<close>

fun py_str :: "cell \<Rightarrow> string" where
  "py_str NaN = ''nan''"
| "py_str (Str s) = s"

fun isna :: "cell \<Rightarrow> bool" where
  "isna NaN = True"
| "isna (Str s) = False"

fun fillna_cell :: "cell \<Rightarrow> string" where
  "fillna_cell NaN = []"
| "fillna_cell (Str s) = s"

definition fillna :: "cell row list \<Rightarrow> string row list" where
  "fillna df = map (map_row fillna_cell) df"

text \<open>A frame of strings seen as a frame again: every cell is a \<open>str\<close>, none is NaN.\<close>

definition as_frame :: "string row list \<Rightarrow> cell row list" where
  "as_frame df = map (map_row Str) df"

section \<open>Dictionaries\<close>

text \<open>
  A Python \<open>dict\<close> keeps insertion order, and the classifier lists a node's children in that
  order, so a dictionary is an association list. \<open>d[k] = v\<close> is \<open>AList.update k v d\<close>
  (replace in place, or append), mutating the value stored under an existing key is
  \<open>AList.map_entry k f d\<close>, \<open>k in d\<close> is \<open>has_key k d\<close> and \<open>d.get(k)\<close> is \<open>map_of d k\<close>.
\<close>

definition has_key :: "'k \<Rightarrow> ('k \<times> 'v) list \<Rightarrow> bool" where
  "has_key k d = (k \<in> fst ` set d)"

section \<open>Note parsing\<close>

text \<open>
  \<open>parse_notes\<close>: the loop variables are \<open>chapter_notes\<close>, \<open>current_key\<close>,
  \<open>current_text\<close> and \<open>in_note_block\<close>; \<open>parse_notes_row\<close> is one iteration of the loop.
  \<open>if current_key:\<close> holds for a key that is neither \<open>None\<close> nor the empty string.
\<close>

record notes_state =
  chapter_notes :: "(string \<times> string) list"
  current_key :: "string option"
  current_text :: "string list"
  in_note_block :: bool

definition save_note :: "notes_state \<Rightarrow> (string \<times> string) list" where
  "save_note st =
     (case current_key st of
        None \<Rightarrow> chapter_notes st
      | Some k \<Rightarrow>
          if k \<noteq> [] then AList.update k (join [CHR 0x0A] (current_text st)) (chapter_notes st)
          else chapter_notes st)"

definition parse_notes_row :: "notes_state \<Rightarrow> cell row \<Rightarrow> notes_state" where
  "parse_notes_row st r =
     (let desc = strip (py_str (DESCRIPTION r));
          header = strip (py_str (HEADER r));
          is_chapter_note_start = (contains ''Chapter Notes.'' desc \<and> length header \<ge> 2)
      in if is_chapter_note_start then
           \<lparr>chapter_notes = save_note st, current_key = Some (take 2 header),
            current_text = [desc], in_note_block = True\<rparr>
         else if in_note_block st \<and> isna (HEADER r) then
           st\<lparr>current_text := current_text st @ [desc]\<rparr>
         else if in_note_block st then
           \<lparr>chapter_notes = save_note st, current_key = None,
            current_text = [], in_note_block = False\<rparr>
         else st)"

definition parse_notes :: "cell row list \<Rightarrow> (string \<times> string) list" where
  "parse_notes df =
     save_note (foldl parse_notes_row
       \<lparr>chapter_notes = [], current_key = None, current_text = [], in_note_block = False\<rparr> df)"

section \<open>The tree\<close>

text \<open>
  A node is the dictionary the builder writes: \<open>description\<close>, \<open>children\<close>, and either
  \<open>notes\<close> (groups, headings, subheadings) or the three rate strings (leaves). The optional
  fields are read with \<open>.get\<close> only, which gives \<open>None\<close> both for a missing key and for a
  stored \<open>None\<close>; the model has \<open>None\<close> for both. The field \<open>notes\<close> is the selector
  \<open>notes'\<close>.
\<close>

datatype node = Node
  (description: string)
  (notes': "string option")
  (import_rate: "string option")
  (export_rate: "string option")
  (sst_rate: "string option")
  (children: "(string \<times> node) list")

type_synonym tree = "(string \<times> node) list"

fun set_description :: "string \<Rightarrow> node \<Rightarrow> node" where
  "set_description d (Node _ n i e s cs) = Node d n i e s cs"

fun map_children :: "(tree \<Rightarrow> tree) \<Rightarrow> node \<Rightarrow> node" where
  "map_children f (Node d n i e s cs) = Node d n i e s (f cs)"

text \<open>\<open>{"description": d, "notes": n, "children": {}}\<close>\<close>

definition inner_node :: "string \<Rightarrow> string option \<Rightarrow> node" where
  "inner_node d n = Node d n None None None []"

text \<open>A title row: create the node with the row's description, or overwrite the description
  of the node that is there.\<close>

definition title_row :: "string \<Rightarrow> string \<Rightarrow> tree \<Rightarrow> tree" where
  "title_row code desc cs =
     (if \<not> has_key code cs then AList.update code (inner_node desc None) cs
      else AList.map_entry code (set_description desc) cs)"

text \<open>A placeholder: create the node with an empty description if it is not there.\<close>

definition placeholder :: "string \<Rightarrow> tree \<Rightarrow> tree" where
  "placeholder code cs =
     (if \<not> has_key code cs then AList.update code (inner_node [] None) cs else cs)"

text \<open>\<open>d.get(k, default)\<close>, applied to the result of looking \<open>k\<close> up in \<open>d\<close>.\<close>

definition get_or :: "'a option \<Rightarrow> 'a \<Rightarrow> 'a" where
  "get_or v dflt = (case v of None \<Rightarrow> dflt | Some x \<Rightarrow> x)"

text \<open>
  Lines 94 and 95, \<open>if len(desc) < len(hs_tree[chapter_code].get('description','z'*100))\<close>.
  Every node dictionary has the key \<open>description\<close> (the group gets it in line 79, with the
  empty string), so the lookup of that key is \<open>Some\<close> of the stored description.
\<close>

definition chapter_title :: "string \<Rightarrow> node \<Rightarrow> node" where
  "chapter_title desc ch =
     (if length desc < length (get_or (Some (description ch)) (replicate 100 CHR ''z''))
      then set_description desc ch else ch)"

text \<open>One iteration of the loop of \<open>build_tree\<close> (lines 63 to 123) on a row of the filled
  frame.\<close>

definition build_row ::
  "(string \<times> string) list \<Rightarrow> tree \<Rightarrow> string row \<Rightarrow> tree" where
  "build_row notes_map hs_tree r =
     (let header = HEADER r; sub = SUB r; item = ITEM r;
          desc = strip (DESCRIPTION r)
      in if header = [] \<or> desc = [] \<or> contains ''Notes.'' desc then hs_tree
         else
           let chapter_code = take 2 header;
               heading_code = header;
               subheading_code = header @ sub;
               full_code = header @ sub @ item;
               t1 = (if \<not> has_key chapter_code hs_tree
                     then AList.update chapter_code
                            (inner_node [] (map_of notes_map chapter_code)) hs_tree
                     else hs_tree)
           in if sub = [] \<and> item = [] then
                AList.map_entry chapter_code (chapter_title desc)
                  (AList.map_entry chapter_code (map_children (title_row heading_code desc)) t1)
              else
                let t2 = AList.map_entry chapter_code
                           (map_children (placeholder heading_code)) t1
                in if item = [] then
                     AList.map_entry chapter_code
                       (map_children (AList.map_entry heading_code
                          (map_children (title_row subheading_code desc)))) t2
                   else
                     let t3 = AList.map_entry chapter_code
                                (map_children (AList.map_entry heading_code
                                   (map_children (placeholder subheading_code)))) t2
                     in AList.map_entry chapter_code
                          (map_children (AList.map_entry heading_code
                             (map_children (AList.map_entry subheading_code
                                (map_children (AList.update full_code
                                   (Node desc None (Some (IMPORT_RATE r))
                                      (Some (EKSPORT_RATE r)) (Some (SST r)) []))))))) t3)"

text \<open>\<open>build_tree\<close> past the cache check: fill the frame, parse the notes from the filled
  frame, run the loop from the empty tree.\<close>

definition build_tree :: "cell row list \<Rightarrow> tree" where
  "build_tree raw =
     (let df = fillna raw;
          notes_map = parse_notes (as_frame df)
      in foldl (build_row notes_map) [] df)"

text \<open>
  \<open>build_tree()\<close> as the procedure it is, with the two files it writes.
  \<open>tree_json\<close> is the content of \<open>OUTPUT_TREE_JSON\<close> and \<open>notes_json\<close> the content of
  \<open>OUTPUT_NOTES_JSON\<close>, \<open>None\<close> for a file that does not exist. When the tree file exists
  the procedure returns at once (lines 52 to 54); otherwise \<open>parse_notes\<close> writes the notes
  file (lines 45 and 46) and the tree is written at the end (lines 125 and 126). The frame
  \<open>csv\<close> is what \<open>pd.read_csv\<close> returns for the input file.
\<close>

record files =
  tree_json :: "tree option"
  notes_json :: "(string \<times> string) list option"

definition run_build_tree :: "cell row list \<Rightarrow> files \<Rightarrow> files" where
  "run_build_tree csv fs =
     (if tree_json fs \<noteq> None then fs
      else fs\<lparr>notes_json := Some (parse_notes (as_frame (fillna csv))),
              tree_json := Some (build_tree csv)\<rparr>)"

text \<open>Bypassing the cache check: the tree file is removed before the run.\<close>

definition rebuild :: "cell row list \<Rightarrow> files \<Rightarrow> files" where
  "rebuild csv fs = run_build_tree csv (fs\<lparr>tree_json := None\<rparr>)"

text \<open>A row of the frame as read, from its header, sub, item and description: an empty sub
  or item cell and the three rate cells are NaN. Below it, the four example rows.\<close>

definition mk_row :: "string \<Rightarrow> string \<Rightarrow> string \<Rightarrow> string \<Rightarrow> cell row" where
  "mk_row h s i d = \<lparr>HEADER = Str h, SUB = (if s = [] then NaN else Str s),
     ITEM = (if i = [] then NaN else Str i), DESCRIPTION = Str d,
     IMPORT_RATE = NaN, EKSPORT_RATE = NaN, SST = NaN\<rparr>"

definition example_rows :: "cell row list" where
  "example_rows =
     [mk_row ''01'' [] [] ''Live animals'',
      mk_row ''0101'' [] [] ''Live horses'',
      mk_row ''0101'' ''21'' [] ''Pure-bred breeding'',
      (mk_row ''0101'' ''21'' ''10'' ''Horses'')
        \<lparr>IMPORT_RATE := Str ''0%'', EKSPORT_RATE := Str ''0%'', SST := Str ''Free''\<rparr>]"

section \<open>Classification\<close>

text \<open>
  The oracle is \<open>_get_llm_choice\<close>. It receives the prompt, which is formatted from four
  values: the product description, \<open>current_path_str\<close>, \<open>parent_notes\<close> and one line per
  child (its code, its description and the lookahead: the number of sub-categories, or
  \<open>None\<close> for "final item"). The model hands the oracle these four values. The oracle may
  answer the same prompt differently at different times, so it carries a state of its own.
  Its answer has the three fields the response schema requires.
\<close>

record request =
  req_product_description :: string
  req_current_path_str :: string
  req_parent_notes :: string
  req_choices :: "(string \<times> string \<times> nat option) list"

record response =
  best_choice_code :: string
  justification :: string
  confidence_score :: int

type_synonym 's llm = "'s \<Rightarrow> request \<Rightarrow> response \<times> 's"

record step =
  code :: string
  step_description :: string
  step_justification :: string
  confidence :: int

record tariff =
  td_import_rate :: "string option"
  td_export_rate :: "string option"
  td_sst_rate :: "string option"

record classification =
  product_description :: string
  full_path :: "step list"
  final_hs_code :: string
  tariff_details :: tariff

text \<open>What \<open>classify_product\<close> returns: the dictionary \<open>{"error": msg}\<close> or the final
  result. An exception that leaves the function is a \<open>py_error\<close>.\<close>

datatype reply = Error string | Result classification

datatype py_error = IndexError

text \<open>The variables of the loop.\<close>

record 's nav =
  current_node_dict :: node
  classification_path :: "step list"
  current_path_str :: string
  oracle_state :: 's

definition choices_of :: "node \<Rightarrow> (string \<times> string \<times> nat option) list" where
  "choices_of n =
     map (\<lambda>(c, data). (c, description data,
            if children data \<noteq> [] then Some (length (children data)) else None))
         (children n)"

definition parent_notes_of :: "node \<Rightarrow> string" where
  "parent_notes_of n =
     (case notes' n of None \<Rightarrow> ''None'' | Some t \<Rightarrow> if t = [] then ''None'' else t)"

definition make_request :: "string \<Rightarrow> 's nav \<Rightarrow> request" where
  "make_request product s =
     \<lparr>req_product_description = product,
      req_current_path_str = current_path_str s,
      req_parent_notes = parent_notes_of (current_node_dict s),
      req_choices = choices_of (current_node_dict s)\<rparr>"

text \<open>
  One iteration of the loop (lines 69 to 118): \<open>Inl\<close> is the \<open>return\<close> of line 103,
  \<open>Inr\<close> the variables after the iteration. The lookup \<open>map_of\<close> is \<open>None\<close> exactly when
  \<open>chosen_code not in current_node_dict["children"]\<close>.
\<close>

definition loop_body :: "'s llm \<Rightarrow> string \<Rightarrow> 's nav \<Rightarrow> reply + 's nav" where
  "loop_body llm product s =
     (let (response, ost) = llm (oracle_state s) (make_request product s);
          chosen_code = best_choice_code response
      in case map_of (children (current_node_dict s)) chosen_code of
           None \<Rightarrow> Inl (Error ''LLM hallucinated an invalid code.'')
         | Some chosen_node_data \<Rightarrow>
             let path = classification_path s @
                   [\<lparr>code = chosen_code,
                     step_description = description chosen_node_data,
                     step_justification = justification response,
                     confidence = confidence_score response\<rparr>]
             in Inr \<lparr>current_node_dict = chosen_node_data,
                     classification_path = path,
                     current_path_str = join '' > '' (map step_description path),
                     oracle_state = ost\<rparr>)"

text \<open>The loop \<open>while current_node_dict.get("children")\<close>: it runs while the children
  dictionary is not empty.\<close>

function while_loop :: "'s llm \<Rightarrow> string \<Rightarrow> 's nav \<Rightarrow> reply + 's nav" where
  "while_loop llm product s =
     (if children (current_node_dict s) = [] then Inr s
      else case loop_body llm product s of
             Inl r \<Rightarrow> Inl r
           | Inr s' \<Rightarrow> while_loop llm product s')"
  by pat_completeness auto
termination
proof (relation "measure (\<lambda>(llm, product, s). size (current_node_dict s))")
  show "wf (measure (\<lambda>(llm :: 's llm, product :: string, s :: 's nav).
          size (current_node_dict s)))"
    by simp
next
  fix llm :: "'s llm" and product :: string and s s' :: "'s nav"
  assume body: "loop_body llm product s = Inr s'"
  have look: "size m < Suc (size_list (size_prod (\<lambda>_. 0) size) cs)"
    if "map_of cs k = Some m" for cs :: tree and k m
    using that by (induction cs) (auto split: if_splits)
  obtain d n i e r cs where cur: "current_node_dict s = Node d n i e r cs"
    by (cases "current_node_dict s")
  obtain resp ost where "llm (oracle_state s) (make_request product s) = (resp, ost)"
    by (cases "llm (oracle_state s) (make_request product s)")
  with body cur have "map_of cs (best_choice_code resp) = Some (current_node_dict s')"
    by (auto simp: loop_body_def Let_def split: option.splits)
  from look [OF this] cur
  show "((llm, product, s'), (llm, product, s))
          \<in> measure (\<lambda>(llm, product, s). size (current_node_dict s))"
    by simp
qed

declare while_loop.simps [simp del]

text \<open>\<open>classify_product\<close>: the loop starts at \<open>{"children": self.hs_tree}\<close>, a dictionary
  with no other key. After the loop, \<open>classification_path[-1]\<close> raises \<open>IndexError\<close> on an
  empty path.\<close>

definition root :: "tree \<Rightarrow> node" where
  "root hs_tree = Node [] None None None None hs_tree"

definition start :: "'s \<Rightarrow> tree \<Rightarrow> 's nav" where
  "start ost hs_tree =
     \<lparr>current_node_dict = root hs_tree, classification_path = [],
      current_path_str = ''Start'', oracle_state = ost\<rparr>"

definition final_result :: "string \<Rightarrow> 's nav \<Rightarrow> py_error + reply" where
  "final_result product s =
     (case classification_path s of
        [] \<Rightarrow> Inl IndexError
      | _ # _ \<Rightarrow>
          Inr (Result
            \<lparr>product_description = product,
             full_path = classification_path s,
             final_hs_code = code (last (classification_path s)),
             tariff_details = \<lparr>td_import_rate = import_rate (current_node_dict s),
                               td_export_rate = export_rate (current_node_dict s),
                               td_sst_rate = sst_rate (current_node_dict s)\<rparr>\<rparr>))"

definition classify_product ::
  "'s llm \<Rightarrow> 's \<Rightarrow> tree \<Rightarrow> string \<Rightarrow> py_error + reply" where
  "classify_product llm ost hs_tree product =
     (case while_loop llm product (start ost hs_tree) of
        Inl r \<Rightarrow> Inr r
      | Inr s \<Rightarrow> final_result product s)"

text \<open>
  Counting iterations: \<open>steps llm product k s = Some s'\<close> says that the loop, started with
  the variables \<open>s\<close>, runs \<open>k\<close> full iterations (each at a node with children, each with a
  validated choice) and then has the variables \<open>s'\<close>.
\<close>

fun steps :: "'s llm \<Rightarrow> string \<Rightarrow> nat \<Rightarrow> 's nav \<Rightarrow> 's nav option" where
  "steps llm product 0 s = Some s"
| "steps llm product (Suc k) s =
     (if children (current_node_dict s) = [] then None
      else case loop_body llm product s of
             Inl r \<Rightarrow> None
           | Inr s' \<Rightarrow> steps llm product k s')"

text \<open>The value of \<open>chosen_code\<close> in the iteration that starts with the variables \<open>s\<close>.\<close>

definition chosen_code :: "'s llm \<Rightarrow> string \<Rightarrow> 's nav \<Rightarrow> string" where
  "chosen_code llm product s =
     best_choice_code (fst (llm (oracle_state s) (make_request product s)))"

text \<open>The depth of a tree below a node: the number of edges of its longest branch.\<close>

fun depth :: "node \<Rightarrow> nat" where
  "depth (Node d n i e r cs) =
     (if cs = [] then 0 else Suc (foldr max (map (\<lambda>p. depth (snd p)) cs) 0))"

text \<open>An oracle that "always returns the first listed choice": whenever choices are
  listed, the chosen code is the code of the first of them.\<close>

definition first_choice :: "'s llm \<Rightarrow> bool" where
  "first_choice llm =
     (\<forall>ost req. req_choices req \<noteq> [] \<longrightarrow>
        best_choice_code (fst (llm ost req)) = fst (hd (req_choices req)))"

definition first_listed :: "unit llm" where
  "first_listed ost req =
     (\<lparr>best_choice_code = (case req_choices req of [] \<Rightarrow> [] | c # _ \<Rightarrow> fst c),
       justification = [], confidence_score = 100\<rparr>, ost)"

definition last_choice :: "'s llm \<Rightarrow> bool" where
  "last_choice llm =
     (\<forall>ost req. req_choices req \<noteq> [] \<longrightarrow>
        best_choice_code (fst (llm ost req)) = fst (last (req_choices req)))"

definition last_listed :: "unit llm" where
  "last_listed ost req =
     (\<lparr>best_choice_code = (case req_choices req of [] \<Rightarrow> [] | c # cs \<Rightarrow> fst (last (c # cs))),
       justification = [], confidence_score = 100\<rparr>, ost)"

text \<open>An oracle that returns the first listed choice when it is asked for the first time and
  the code \<open>99\<close> afterwards; its state counts the calls.\<close>

definition first_then_99 :: "nat llm" where
  "first_then_99 calls req =
     (\<lparr>best_choice_code =
         (if calls = 0 then (case req_choices req of [] \<Rightarrow> [] | c # _ \<Rightarrow> fst c) else ''99''),
       justification = [], confidence_score = 0\<rparr>, Suc calls)"

text \<open>The outcome "a success result with this final code and a path of this length".\<close>

definition reaches :: "string \<Rightarrow> nat \<Rightarrow> py_error + reply \<Rightarrow> bool" where
  "reaches c n out =
     (case out of
        Inr (Result r) \<Rightarrow> final_hs_code r = c \<and> length (full_path r) = n
      | _ \<Rightarrow> False)"

section \<open>Properties of built trees\<close>

text \<open>\<open>dict_ok P d\<close>: no two entries of the dictionary share a key, and every entry
  satisfies \<open>P\<close>.\<close>

definition dict_ok :: "(string \<Rightarrow> node \<Rightarrow> bool) \<Rightarrow> tree \<Rightarrow> bool" where
  "dict_ok P d = (distinct (map fst d) \<and> (\<forall>(c, m) \<in> set d. P c m))"

text \<open>
  The codes of a tree, level by level. \<open>R1\<close> relates a group's code to a heading's code,
  \<open>R2\<close> a heading's code to a subheading's code and \<open>R3\<close> a subheading's code to a leaf's
  code; at every level the siblings have distinct codes, and a leaf has no children.
\<close>

definition leaf_level ::
  "(string \<Rightarrow> string \<Rightarrow> bool) \<Rightarrow> string \<Rightarrow> string \<Rightarrow> node \<Rightarrow> bool" where
  "leaf_level R3 pc c m = (R3 pc c \<and> children m = [])"

definition subheading_level ::
  "(string \<Rightarrow> string \<Rightarrow> bool) \<Rightarrow> (string \<Rightarrow> string \<Rightarrow> bool) \<Rightarrow>
   string \<Rightarrow> string \<Rightarrow> node \<Rightarrow> bool" where
  "subheading_level R2 R3 pc c m = (R2 pc c \<and> dict_ok (leaf_level R3 c) (children m))"

definition heading_level ::
  "(string \<Rightarrow> string \<Rightarrow> bool) \<Rightarrow> (string \<Rightarrow> string \<Rightarrow> bool) \<Rightarrow>
   (string \<Rightarrow> string \<Rightarrow> bool) \<Rightarrow> string \<Rightarrow> string \<Rightarrow> node \<Rightarrow> bool" where
  "heading_level R1 R2 R3 pc c m =
     (R1 pc c \<and> dict_ok (subheading_level R2 R3 c) (children m))"

definition group_level ::
  "(string \<Rightarrow> string \<Rightarrow> bool) \<Rightarrow> (string \<Rightarrow> string \<Rightarrow> bool) \<Rightarrow>
   (string \<Rightarrow> string \<Rightarrow> bool) \<Rightarrow> string \<Rightarrow> node \<Rightarrow> bool" where
  "group_level R1 R2 R3 c m = dict_ok (heading_level R1 R2 R3 c) (children m)"

definition codes_ok ::
  "(string \<Rightarrow> string \<Rightarrow> bool) \<Rightarrow> (string \<Rightarrow> string \<Rightarrow> bool) \<Rightarrow>
   (string \<Rightarrow> string \<Rightarrow> bool) \<Rightarrow> tree \<Rightarrow> bool" where
  "codes_ok R1 R2 R3 t = dict_ok (group_level R1 R2 R3) t"

text \<open>A node without rate fields, and a tree whose groups, headings and subheadings are
  all without rate fields.\<close>

definition rateless :: "node \<Rightarrow> bool" where
  "rateless m = (import_rate m = None \<and> export_rate m = None \<and> sst_rate m = None)"

definition rateless_subheading :: "string \<Rightarrow> node \<Rightarrow> bool" where
  "rateless_subheading c m = rateless m"

definition rateless_heading :: "string \<Rightarrow> node \<Rightarrow> bool" where
  "rateless_heading c m = (rateless m \<and> dict_ok rateless_subheading (children m))"

definition rateless_group :: "string \<Rightarrow> node \<Rightarrow> bool" where
  "rateless_group c m = (rateless m \<and> dict_ok rateless_heading (children m))"

definition rateless_above_leaves :: "tree \<Rightarrow> bool" where
  "rateless_above_leaves t = dict_ok rateless_group t"

section \<open>Example inputs\<close>

text \<open>A marker row, two continuation rows with no header, and a heading row.\<close>

definition note_rows :: "cell row list" where
  "note_rows =
     [mk_row ''01'' [] [] ''Chapter Notes.'',
      (mk_row [] [] [] ''1. This Chapter covers all live animals.'')\<lparr>HEADER := NaN\<rparr>,
      (mk_row [] [] [] ''2. Except fish.'')\<lparr>HEADER := NaN\<rparr>,
      mk_row ''0101'' [] [] ''Live horses'']"

text \<open>A heading title row and a subheading title row, with no leaf row after them.\<close>

definition title_rows :: "cell row list" where
  "title_rows =
     [mk_row ''0101'' [] [] ''Live horses'',
      mk_row ''0101'' ''21'' [] ''Pure-bred breeding'']"

text \<open>A leaf row with an item but no sub field.\<close>

definition item_rows :: "cell row list" where
  "item_rows = [mk_row ''0101'' [] ''10'' ''Horses'']"

section \<open>The example tree\<close>

lemma build_example_rows:
  "build_tree example_rows =
     [(''01'', Node [] None None None None
        [(''01'', Node ''Live animals'' None None None None []),
         (''0101'', Node ''Live horses'' None None None None
            [(''010121'', Node ''Pure-bred breeding'' None None None None
               [(''01012110'',
                 Node ''Horses'' None (Some ''0%'') (Some ''0%'') (Some ''Free'') [])])])])]"
  by code_simp

text \<open>
  Claim C8. Building from the four example rows gives a tree in which group \<open>01\<close> contains
  heading \<open>0101\<close>, which contains subheading \<open>010121\<close>, which contains the leaf \<open>01012110\<close>
  with description \<open>Horses\<close> and the rates \<open>0%\<close>, \<open>0%\<close> and \<open>Free\<close>.
\<close>

theorem example_tree:
  "\<exists>g h s l.
     map_of (build_tree example_rows) ''01'' = Some g \<and>
     map_of (children g) ''0101'' = Some h \<and>
     map_of (children h) ''010121'' = Some s \<and>
     map_of (children s) ''01012110'' = Some l \<and>
     description l = ''Horses'' \<and>
     import_rate l = Some ''0%'' \<and> export_rate l = Some ''0%'' \<and>
     sst_rate l = Some ''Free''"
  by (simp add: build_example_rows)

section \<open>The loop, one iteration at a time\<close>

lemma while_loop_stop:
  "children (current_node_dict s) = [] \<Longrightarrow> while_loop llm product s = Inr s"
  by (subst while_loop.simps) simp

lemma while_loop_step:
  "children (current_node_dict s) \<noteq> [] \<Longrightarrow> loop_body llm product s = Inr s' \<Longrightarrow>
   while_loop llm product s = while_loop llm product s'"
  by (subst while_loop.simps) simp

lemma while_loop_abort:
  "children (current_node_dict s) \<noteq> [] \<Longrightarrow> loop_body llm product s = Inl r \<Longrightarrow>
   while_loop llm product s = Inl r"
  by (subst while_loop.simps) simp

lemma loop_body_valid:
  assumes "map_of (children (current_node_dict s))
             (chosen_code llm product s) = Some m"
  shows "\<exists>s'. loop_body llm product s = Inr s' \<and> current_node_dict s' = m \<and>
               map code (classification_path s') =
                 map code (classification_path s) @
                   [chosen_code llm product s]"
  using assms by (auto simp: loop_body_def chosen_code_def Let_def split: prod.splits)

lemma loop_body_invalid:
  assumes "map_of (children (current_node_dict s))
             (chosen_code llm product s) = None"
  shows "loop_body llm product s = Inl (Error ''LLM hallucinated an invalid code.'')"
  using assms by (auto simp: loop_body_def chosen_code_def Let_def split: prod.splits)

lemma first_choice_code:
  assumes "first_choice llm" and "children (current_node_dict s) = (c, m) # rest"
  shows "chosen_code llm product s = c"
proof -
  have "req_choices (make_request product s) \<noteq> []"
    and "fst (hd (req_choices (make_request product s))) = c"
    using assms(2) by (simp_all add: make_request_def choices_of_def)
  with assms(1) show ?thesis
    unfolding first_choice_def chosen_code_def by metis
qed

lemma last_choice_code:
  assumes "last_choice llm" and "children (current_node_dict s) = rest @ [(c, m)]"
  shows "chosen_code llm product s = c"
proof -
  have "req_choices (make_request product s) \<noteq> []"
    and "fst (last (req_choices (make_request product s))) = c"
    using assms(2) by (simp_all add: make_request_def choices_of_def)
  with assms(1) show ?thesis
    unfolding last_choice_def chosen_code_def by metis
qed

lemma final_result_reaches:
  assumes "map code (classification_path s) = cs @ [c]"
  shows "reaches c (Suc (length cs)) (final_result product s)"
proof -
  from assms have ne: "classification_path s \<noteq> []" by auto
  have len: "length (classification_path s) = Suc (length cs)"
    using arg_cong [OF assms, of length] by simp
  have "code (last (classification_path s)) = last (map code (classification_path s))"
    using ne by (simp add: last_map)
  with assms have lst: "code (last (classification_path s)) = c" by simp
  obtain p ps where "classification_path s = p # ps"
    using ne by (cases "classification_path s") auto
  then have "final_result product s =
      Inr (Result \<lparr>product_description = product, full_path = classification_path s,
             final_hs_code = code (last (classification_path s)),
             tariff_details = \<lparr>td_import_rate = import_rate (current_node_dict s),
                               td_export_rate = export_rate (current_node_dict s),
                               td_sst_rate = sst_rate (current_node_dict s)\<rparr>\<rparr>)"
    by (simp add: final_result_def)
  with len lst show ?thesis by (simp add: reaches_def)
qed

lemma descend:
  assumes "chosen_code llm product s = c"
    and "map_of (children (current_node_dict s)) c = Some m"
    and "map code (classification_path s) = cs"
  obtains s' where "while_loop llm product s = while_loop llm product s'"
    and "loop_body llm product s = Inr s'"
    and "current_node_dict s' = m"
    and "map code (classification_path s') = cs @ [c]"
proof -
  from assms(2) have ne: "children (current_node_dict s) \<noteq> []" by auto
  from loop_body_valid [of s llm product m] assms
  obtain s' where b: "loop_body llm product s = Inr s'" and "current_node_dict s' = m"
    and "map code (classification_path s') = cs @ [c]"
    by auto
  with while_loop_step [OF ne b] that show thesis by blast
qed

lemma classify_first_choice_example:
  assumes "first_choice llm"
  shows "reaches ''01'' 2 (classify_product llm ost (build_tree example_rows) product)"
proof -
  let ?h = "Node ''Live animals'' None None None None []"
  let ?T = "build_tree example_rows"
  obtain g rest where T: "?T = [(''01'', g)]" and g: "children g = (''01'', ?h) # rest"
    by (simp add: build_example_rows)
  let ?init = "start ost ?T"
  have c0: "children (current_node_dict ?init) = (''01'', g) # []"
    by (simp add: start_def root_def T)
  have k0: "chosen_code llm product ?init = ''01''"
    by (rule first_choice_code [OF assms c0])
  have m0: "map_of (children (current_node_dict ?init)) ''01'' = Some g"
    by (simp add: c0)
  have p0: "map code (classification_path ?init) = []"
    by (simp add: start_def)
  obtain s1 where w1: "while_loop llm product ?init = while_loop llm product s1"
    and "loop_body llm product ?init = Inr s1"
    and n1: "current_node_dict s1 = g"
    and p1: "map code (classification_path s1) = [] @ [''01'']"
    by (rule descend [OF k0 m0 p0])
  have c1: "children (current_node_dict s1) = (''01'', ?h) # rest"
    by (simp add: n1 g)
  have k1: "chosen_code llm product s1 = ''01''"
    by (rule first_choice_code [OF assms c1])
  have m1: "map_of (children (current_node_dict s1)) ''01'' = Some ?h"
    by (simp add: c1)
  obtain s2 where w2: "while_loop llm product s1 = while_loop llm product s2"
    and "loop_body llm product s1 = Inr s2"
    and n2: "current_node_dict s2 = ?h"
    and p2: "map code (classification_path s2) = ([] @ [''01'']) @ [''01'']"
    by (rule descend [OF k1 m1 p1])
  have "while_loop llm product s2 = Inr s2"
    by (rule while_loop_stop) (simp add: n2)
  with w1 w2 have "classify_product llm ost ?T product = final_result product s2"
    by (simp add: classify_product_def)
  with final_result_reaches [OF p2, of product] show ?thesis
    by (simp add: numeral_2_eq_2)
qed

lemma classify_last_choice_example:
  assumes "last_choice llm"
  shows "reaches ''01012110'' 4 (classify_product llm ost (build_tree example_rows) product)"
proof -
  let ?l = "Node ''Horses'' None (Some ''0%'') (Some ''0%'') (Some ''Free'') []"
  let ?s = "Node ''Pure-bred breeding'' None None None None [(''01012110'', ?l)]"
  let ?h = "Node ''Live horses'' None None None None [(''010121'', ?s)]"
  let ?a = "Node ''Live animals'' None None None None []"
  let ?g = "Node [] None None None None [(''01'', ?a), (''0101'', ?h)]"
  let ?T = "build_tree example_rows"
  let ?init = "start ost ?T"
  have T: "?T = [(''01'', ?g)]"
    by (simp add: build_example_rows)
  have c0: "children (current_node_dict ?init) = [] @ [(''01'', ?g)]"
    by (simp add: start_def root_def T)
  have k0: "chosen_code llm product ?init = ''01''"
    by (rule last_choice_code [OF assms c0])
  have m0: "map_of (children (current_node_dict ?init)) ''01'' = Some ?g"
    by (simp add: c0)
  have p0: "map code (classification_path ?init) = []"
    by (simp add: start_def)
  obtain s1 where w1: "while_loop llm product ?init = while_loop llm product s1"
    and "loop_body llm product ?init = Inr s1"
    and n1: "current_node_dict s1 = ?g"
    and p1: "map code (classification_path s1) = [] @ [''01'']"
    by (rule descend [OF k0 m0 p0])
  have c1: "children (current_node_dict s1) = [(''01'', ?a)] @ [(''0101'', ?h)]"
    by (simp add: n1)
  have k1: "chosen_code llm product s1 = ''0101''"
    by (rule last_choice_code [OF assms c1])
  have m1: "map_of (children (current_node_dict s1)) ''0101'' = Some ?h"
    by (simp add: c1)
  obtain s2 where w2: "while_loop llm product s1 = while_loop llm product s2"
    and "loop_body llm product s1 = Inr s2"
    and n2: "current_node_dict s2 = ?h"
    and p2: "map code (classification_path s2) = ([] @ [''01'']) @ [''0101'']"
    by (rule descend [OF k1 m1 p1])
  have c2: "children (current_node_dict s2) = [] @ [(''010121'', ?s)]"
    by (simp add: n2)
  have k2: "chosen_code llm product s2 = ''010121''"
    by (rule last_choice_code [OF assms c2])
  have m2: "map_of (children (current_node_dict s2)) ''010121'' = Some ?s"
    by (simp add: c2)
  obtain s3 where w3: "while_loop llm product s2 = while_loop llm product s3"
    and "loop_body llm product s2 = Inr s3"
    and n3: "current_node_dict s3 = ?s"
    and p3: "map code (classification_path s3) = (([] @ [''01'']) @ [''0101'']) @ [''010121'']"
    by (rule descend [OF k2 m2 p2])
  have c3: "children (current_node_dict s3) = [] @ [(''01012110'', ?l)]"
    by (simp add: n3)
  have k3: "chosen_code llm product s3 =
      ''01012110''"
    by (rule last_choice_code [OF assms c3])
  have m3: "map_of (children (current_node_dict s3)) ''01012110'' = Some ?l"
    by (simp add: c3)
  obtain s4 where w4: "while_loop llm product s3 = while_loop llm product s4"
    and "loop_body llm product s3 = Inr s4"
    and n4: "current_node_dict s4 = ?l"
    and p4: "map code (classification_path s4) =
      ((([] @ [''01'']) @ [''0101'']) @ [''010121'']) @ [''01012110'']"
    by (rule descend [OF k3 m3 p3])
  have "while_loop llm product s4 = Inr s4"
    by (rule while_loop_stop) (simp add: n4)
  with w1 w2 w3 w4 have "classify_product llm ost ?T product = final_result product s4"
    by (simp add: classify_product_def)
  with final_result_reaches [OF p4, of product] show ?thesis
    by (simp add: eval_nat_numeral)
qed

lemma first_choice_first_listed: "first_choice first_listed"
  by (auto simp: first_choice_def first_listed_def split: list.splits)

lemma last_choice_last_listed: "last_choice last_listed"
  by (auto simp: last_choice_def last_listed_def split: list.splits)

lemma reaches_unique:
  "reaches c n out \<Longrightarrow> reaches c' n' out \<Longrightarrow> c' = c \<and> n' = n"
  by (auto simp: reaches_def split: sum.splits reply.splits)


section \<open>Navigating the example tree\<close>

text \<open>
  Claim C1, as the code has it. The first row of the example has the header \<open>01\<close>, so
  it is a heading title row and creates the heading \<open>01\<close> under the group \<open>01\<close>, before
  the heading \<open>0101\<close>. For every query and every state of the oracle: an oracle that
  always returns the first listed choice ends successfully at that childless heading, with
  final code \<open>01\<close> and a path of 2 steps; an oracle that always returns the last listed
  choice ends successfully at the leaf \<open>01012110\<close>, with a path of 4 steps.
\<close>

theorem example_navigation:
  "(first_choice llm \<longrightarrow>
      reaches ''01'' 2 (classify_product llm ost (build_tree example_rows) product)) \<and>
   (last_choice llm \<longrightarrow>
      reaches ''01012110'' 4 (classify_product llm ost (build_tree example_rows) product))"
  by (simp add: classify_first_choice_example classify_last_choice_example)

text \<open>The two oracles \<open>first_listed\<close> and \<open>last_listed\<close> on the example tree.\<close>

theorem example_navigation_witness:
  "first_choice first_listed \<and>
   reaches ''01'' 2
     (classify_product first_listed () (build_tree example_rows)
        ''Live pure-bred breeding horses'') \<and>
   last_choice last_listed \<and>
   reaches ''01012110'' 4
     (classify_product last_listed () (build_tree example_rows)
        ''Live pure-bred breeding horses'')"
  using example_navigation [of first_listed "()" "''Live pure-bred breeding horses''"]
    example_navigation [of last_listed "()" "''Live pure-bred breeding horses''"]
    first_choice_first_listed last_choice_last_listed
  by simp

text \<open>The claim as the specification states it, final code \<open>01012110\<close> after 3 steps, fails
  for the oracle \<open>first_listed\<close>.\<close>

theorem first_choice_stops_early:
  "first_choice first_listed \<and>
   \<not> reaches ''01012110'' 3
       (classify_product first_listed () (build_tree example_rows)
          ''Live pure-bred breeding horses'')"
proof -
  have "reaches ''01'' 2
      (classify_product first_listed () (build_tree example_rows)
         ''Live pure-bred breeding horses'')"
    by (rule classify_first_choice_example [OF first_choice_first_listed])
  then have "\<not> reaches ''01012110'' 3
      (classify_product first_listed () (build_tree example_rows)
         ''Live pure-bred breeding horses'')"
    by (auto dest: reaches_unique)
  with first_choice_first_listed show ?thesis by simp
qed

section \<open>The empty tree\<close>

text \<open>
  Claim C4 fails in the code. On a root without children the loop body never runs, the
  path is empty, and building the result raises \<open>IndexError\<close> at
  \<open>classification_path[-1]\<close>: no error dictionary is returned.
\<close>

theorem empty_tree_raises:
  "classify_product llm ost [] product = Inl IndexError"
proof -
  have "children (current_node_dict (start ost [])) = []"
    by (simp add: start_def root_def)
  then have "while_loop llm product (start ost []) = Inr (start ost [])"
    by (rule while_loop_stop)
  then show ?thesis
    by (simp add: classify_product_def final_result_def start_def)
qed

section \<open>Counting iterations\<close>

lemma loop_body_Inl:
  "loop_body llm product s = Inl r \<Longrightarrow> r = Error ''LLM hallucinated an invalid code.''"
  by (auto simp: loop_body_def Let_def split: prod.splits option.splits)

lemma loop_body_Inr:
  assumes "loop_body llm product s = Inr s'"
  shows "map_of (children (current_node_dict s)) (chosen_code llm product s) =
           Some (current_node_dict s')"
    and "classification_path s' =
           classification_path s @
             [\<lparr>code = chosen_code llm product s,
               step_description = description (current_node_dict s'),
               step_justification =
                 justification (fst (llm (oracle_state s) (make_request product s))),
               confidence =
                 confidence_score (fst (llm (oracle_state s) (make_request product s)))\<rparr>]"
  using assms
  by (auto simp: loop_body_def chosen_code_def Let_def split: prod.splits option.splits)

lemma steps_while_loop:
  "steps llm product k s = Some s' \<Longrightarrow> while_loop llm product s = while_loop llm product s'"
proof (induction k arbitrary: s)
  case 0
  then show ?case by simp
next
  case (Suc k)
  from Suc.prems obtain s1 where ne: "children (current_node_dict s) \<noteq> []"
    and b: "loop_body llm product s = Inr s1" and r: "steps llm product k s1 = Some s'"
    by (auto split: if_splits sum.splits)
  from while_loop_step [OF ne b] Suc.IH [OF r] show ?case by simp
qed

lemma steps_path_length:
  "steps llm product k s = Some s' \<Longrightarrow>
   length (classification_path s') = length (classification_path s) + k"
proof (induction k arbitrary: s)
  case 0
  then show ?case by simp
next
  case (Suc k)
  from Suc.prems obtain s1 where b: "loop_body llm product s = Inr s1"
    and r: "steps llm product k s1 = Some s'"
    by (auto split: if_splits sum.splits)
  from loop_body_Inr(2) [OF b] have "length (classification_path s1) = Suc (length (classification_path s))"
    by simp
  with Suc.IH [OF r] show ?case by simp
qed

lemma steps_snoc:
  assumes "steps llm product k s = Some s1"
    and "children (current_node_dict s1) \<noteq> []"
    and "loop_body llm product s1 = Inr s2"
  shows "steps llm product (Suc k) s = Some s2"
  using assms
proof (induction k arbitrary: s)
  case 0
  then show ?case by simp
next
  case (Suc k)
  from Suc.prems(1) obtain t where ne: "children (current_node_dict s) \<noteq> []"
    and b: "loop_body llm product s = Inr t" and r: "steps llm product k t = Some s1"
    by (auto split: if_splits sum.splits)
  from Suc.IH [OF r Suc.prems(2,3)] ne b show ?case by simp
qed

lemma steps_last:
  assumes "steps llm product (Suc k) s = Some s2"
  shows "\<exists>s1. steps llm product k s = Some s1 \<and> children (current_node_dict s1) \<noteq> [] \<and>
              loop_body llm product s1 = Inr s2"
  using assms
proof (induction k arbitrary: s)
  case 0
  then show ?case by (auto split: if_splits sum.splits)
next
  case (Suc k)
  from Suc.prems obtain t where ne: "children (current_node_dict s) \<noteq> []"
    and b: "loop_body llm product s = Inr t" and r: "steps llm product (Suc k) t = Some s2"
    by (auto split: if_splits sum.splits)
  from Suc.IH [OF r] obtain s1 where "steps llm product k t = Some s1"
    and "children (current_node_dict s1) \<noteq> []" and "loop_body llm product s1 = Inr s2"
    by blast
  with ne b show ?case by auto
qed

section \<open>An invalid choice\<close>

text \<open>
  Claim C5. When the loop has run \<open>k\<close> full iterations and the oracle then returns a code
  that is not a key of the current node's children, this iteration returns the error
  dictionary at once, \<open>classify_product\<close> returns that error, and the path at that moment
  has \<open>k\<close> entries: one for each validated step.
\<close>

theorem invalid_choice_aborts:
  assumes "steps llm product k (start ost hs_tree) = Some s"
    and "children (current_node_dict s) \<noteq> []"
    and "\<not> has_key (chosen_code llm product s) (children (current_node_dict s))"
  shows "loop_body llm product s = Inl (Error ''LLM hallucinated an invalid code.'') \<and>
         classify_product llm ost hs_tree product =
           Inr (Error ''LLM hallucinated an invalid code.'') \<and>
         length (classification_path s) = k"
proof -
  from assms(3)
  have "map_of (children (current_node_dict s)) (chosen_code llm product s) = None"
    by (simp add: has_key_def map_of_eq_None_iff)
  then have b: "loop_body llm product s = Inl (Error ''LLM hallucinated an invalid code.'')"
    by (rule loop_body_invalid)
  have "while_loop llm product (start ost hs_tree) = while_loop llm product s"
    by (rule steps_while_loop [OF assms(1)])
  also have "\<dots> = Inl (Error ''LLM hallucinated an invalid code.'')"
    by (rule while_loop_abort [OF assms(2) b])
  finally have c: "classify_product llm ost hs_tree product =
      Inr (Error ''LLM hallucinated an invalid code.'')"
    by (simp add: classify_product_def)
  from steps_path_length [OF assms(1)] have "length (classification_path s) = k"
    by (simp add: start_def)
  with b c show ?thesis by simp
qed

lemma steps_first_then_99:
  "steps first_then_99 ''horse'' (Suc 0) (start 0 (build_tree example_rows)) =
     Some \<lparr>current_node_dict =
             Node [] None None None None
               [(''01'', Node ''Live animals'' None None None None []),
                (''0101'', Node ''Live horses'' None None None None
                   [(''010121'', Node ''Pure-bred breeding'' None None None None
                      [(''01012110'',
                        Node ''Horses'' None (Some ''0%'') (Some ''0%'') (Some ''Free'')
                          [])])])],
           classification_path =
             [\<lparr>code = ''01'', step_description = [], step_justification = [],
               confidence = 0\<rparr>],
           current_path_str = [], oracle_state = Suc 0\<rparr>"
  by (simp add: build_example_rows start_def root_def loop_body_def first_then_99_def
      make_request_def choices_of_def parent_notes_of_def Let_def)

theorem invalid_choice_aborts_witness:
  "(\<exists>s. steps first_then_99 ''horse'' (Suc 0) (start 0 (build_tree example_rows)) = Some s \<and>
        children (current_node_dict s) \<noteq> [] \<and>
        \<not> has_key (chosen_code first_then_99 ''horse'' s) (children (current_node_dict s)) \<and>
        loop_body first_then_99 ''horse'' s =
          Inl (Error ''LLM hallucinated an invalid code.'') \<and>
        length (classification_path s) = Suc 0) \<and>
   classify_product first_then_99 0 (build_tree example_rows) ''horse'' =
     Inr (Error ''LLM hallucinated an invalid code.'')"
proof -
  obtain s where s: "steps first_then_99 ''horse'' (Suc 0) (start 0 (build_tree example_rows)) =
      Some s"
    and c: "children (current_node_dict s) \<noteq> []"
    and n: "oracle_state s = Suc 0"
    and k: "map fst (children (current_node_dict s)) = [''01'', ''0101'']"
    unfolding steps_first_then_99 by simp
  have h: "\<not> has_key (chosen_code first_then_99 ''horse'' s) (children (current_node_dict s))"
    using k by (simp add: chosen_code_def first_then_99_def has_key_def n flip: set_map)
  from invalid_choice_aborts [OF s c h] s c h show ?thesis
    by blast
qed


section \<open>Termination within the depth of the tree\<close>

lemma depth_map_of:
  "map_of cs c = Some m \<Longrightarrow> depth m \<le> foldr max (map (\<lambda>p. depth (snd p)) cs) 0"
  by (induction cs) (auto split: if_splits)

lemma depth_child:
  assumes "map_of (children n) c = Some m"
  shows "Suc (depth m) \<le> depth n"
proof (cases n)
  case (Node d nt i e r cs)
  with assms have "cs \<noteq> []" by auto
  with Node depth_map_of [of cs c m] assms show ?thesis by simp
qed

lemma loop_terminates:
  "\<exists>k s'. steps llm product k s = Some s' \<and>
          k + depth (current_node_dict s') \<le> depth (current_node_dict s) \<and>
          (if children (current_node_dict s') = []
           then while_loop llm product s = Inr s'
           else loop_body llm product s' = Inl (Error ''LLM hallucinated an invalid code.'') \<and>
                while_loop llm product s = Inl (Error ''LLM hallucinated an invalid code.''))"
proof (induction llm product s rule: while_loop.induct)
  case (1 llm product s)
  show ?case
  proof (cases "children (current_node_dict s) = []")
    case True
    then have "steps llm product 0 s = Some s" and "while_loop llm product s = Inr s"
      by (simp_all add: while_loop_stop)
    with True show ?thesis
      by (intro exI [of _ 0] exI [of _ s]) simp
  next
    case False
    show ?thesis
    proof (cases "loop_body llm product s")
      case (Inl r)
      with loop_body_Inl [OF Inl] while_loop_abort [OF False Inl] False show ?thesis
        by (intro exI [of _ 0] exI [of _ s]) simp
    next
      case (Inr b)
      from "1.IH" [OF False Inr] obtain k s' where
        st: "steps llm product k b = Some s'"
        and d: "k + depth (current_node_dict s') \<le> depth (current_node_dict b)"
        and r: "if children (current_node_dict s') = []
           then while_loop llm product b = Inr s'
           else loop_body llm product s' = Inl (Error ''LLM hallucinated an invalid code.'') \<and>
                while_loop llm product b = Inl (Error ''LLM hallucinated an invalid code.'')"
        by blast
      from st False Inr have st': "steps llm product (Suc k) s = Some s'"
        by simp
      from depth_child [OF loop_body_Inr(1) [OF Inr]] d
      have d': "Suc k + depth (current_node_dict s') \<le> depth (current_node_dict s)"
        by simp
      from r while_loop_step [OF False Inr]
      have "if children (current_node_dict s') = []
           then while_loop llm product s = Inr s'
           else loop_body llm product s' = Inl (Error ''LLM hallucinated an invalid code.'') \<and>
                while_loop llm product s = Inl (Error ''LLM hallucinated an invalid code.'')"
        by simp
      with st' d' show ?thesis by blast
    qed
  qed
qed

text \<open>
  Claim C6. For every tree, every oracle (with any state) and every query, the loop ends
  after some number \<open>k\<close> of full iterations with \<open>k\<close> at most the depth of the tree: either
  at a node without children, where \<open>classify_product\<close> leaves the loop, or at a node where
  the oracle's choice is invalid, where the next iteration returns the error dictionary.
  In the second case that last iteration is within the depth as well, since
  \<open>k + depth (current_node_dict s)\<close> is at most the depth of the tree and the node has
  children.
\<close>

theorem classify_terminates_within_depth:
  "\<exists>k s. steps llm product k (start ost hs_tree) = Some s \<and>
         k + depth (current_node_dict s) \<le> depth (root hs_tree) \<and>
         (if children (current_node_dict s) = []
          then classify_product llm ost hs_tree product = final_result product s
          else loop_body llm product s = Inl (Error ''LLM hallucinated an invalid code.'') \<and>
               classify_product llm ost hs_tree product =
                 Inr (Error ''LLM hallucinated an invalid code.''))"
proof -
  from loop_terminates [of llm product "start ost hs_tree"]
  obtain k s where st: "steps llm product k (start ost hs_tree) = Some s"
    and d: "k + depth (current_node_dict s) \<le> depth (current_node_dict (start ost hs_tree))"
    and r: "if children (current_node_dict s) = []
       then while_loop llm product (start ost hs_tree) = Inr s
       else loop_body llm product s = Inl (Error ''LLM hallucinated an invalid code.'') \<and>
            while_loop llm product (start ost hs_tree) =
              Inl (Error ''LLM hallucinated an invalid code.'')"
    by blast
  from d have d': "k + depth (current_node_dict s) \<le> depth (root hs_tree)"
    by (simp add: start_def)
  from r have "if children (current_node_dict s) = []
          then classify_product llm ost hs_tree product = final_result product s
          else loop_body llm product s = Inl (Error ''LLM hallucinated an invalid code.'') \<and>
               classify_product llm ost hs_tree product =
                 Inr (Error ''LLM hallucinated an invalid code.'')"
    by (auto simp: classify_product_def split: if_splits)
  with st d' show ?thesis by blast
qed

lemma depth_example: "depth (root (build_tree example_rows)) = 4"
  by (simp add: build_example_rows root_def)

theorem classify_terminates_within_depth_witness:
  "\<exists>k s. steps first_listed ''horse'' k (start () (build_tree example_rows)) = Some s \<and>
         k + depth (current_node_dict s) \<le> 4 \<and>
         (if children (current_node_dict s) = []
          then classify_product first_listed () (build_tree example_rows) ''horse'' =
                 final_result ''horse'' s
          else loop_body first_listed ''horse'' s =
                 Inl (Error ''LLM hallucinated an invalid code.'') \<and>
               classify_product first_listed () (build_tree example_rows) ''horse'' =
                 Inr (Error ''LLM hallucinated an invalid code.''))"
  using classify_terminates_within_depth
    [of first_listed "''horse''" "()" "build_tree example_rows"]
  by (simp only: depth_example)

section \<open>Dictionaries that satisfy a property\<close>

lemma dict_ok_Nil: "dict_ok P []"
  by (simp add: dict_ok_def)

lemma set_update_subset: "set (AList.update k v d) \<subseteq> insert (k, v) (set d)"
  by (induction d) auto

lemma set_map_entry_subset:
  "set (AList.map_entry k f d) \<subseteq> set d \<union> {(k, f v) | v. (k, v) \<in> set d}"
  by (induction d) auto

lemma dict_ok_update:
  assumes "dict_ok P d" and "P k v"
  shows "dict_ok P (AList.update k v d)"
proof -
  from assms(1) have "distinct (map fst (AList.update k v d))"
    by (simp add: dict_ok_def distinct_update)
  moreover have "P c m" if "(c, m) \<in> set (AList.update k v d)" for c m
    using that set_update_subset [of k v d] assms by (auto simp: dict_ok_def)
  ultimately show ?thesis by (auto simp: dict_ok_def)
qed

lemma dict_ok_map_entry:
  assumes "dict_ok P d" and "\<And>v. P k v \<Longrightarrow> P k (f v)"
  shows "dict_ok P (AList.map_entry k f d)"
proof -
  from assms(1) have "distinct (map fst (AList.map_entry k f d))"
    by (simp add: dict_ok_def distinct_map_entry)
  moreover have "P c m" if "(c, m) \<in> set (AList.map_entry k f d)" for c m
  proof -
    from that set_map_entry_subset [of k f d]
    consider "(c, m) \<in> set d" | v where "c = k" and "m = f v" and "(k, v) \<in> set d"
      by auto
    then show ?thesis
      using assms by cases (auto simp: dict_ok_def)
  qed
  ultimately show ?thesis by (auto simp: dict_ok_def)
qed

lemma dict_ok_map_of:
  "dict_ok P d \<Longrightarrow> map_of d c = Some m \<Longrightarrow> P c m"
  by (auto simp: dict_ok_def dest: map_of_SomeD)

lemma children_map_children: "children (map_children f n) = f (children n)"
  by (cases n) simp

lemma children_set_description: "children (set_description d n) = children n"
  by (cases n) simp

lemma children_chapter_title: "children (chapter_title d n) = children n"
  by (simp add: chapter_title_def children_set_description)

lemma dict_ok_title_row:
  assumes "dict_ok P cs" and "P c (inner_node desc None)"
    and "\<And>v. P c v \<Longrightarrow> P c (set_description desc v)"
  shows "dict_ok P (title_row c desc cs)"
  using assms by (simp add: title_row_def dict_ok_update dict_ok_map_entry)

lemma dict_ok_placeholder:
  assumes "dict_ok P cs" and "P c (inner_node [] None)"
  shows "dict_ok P (placeholder c cs)"
  using assms by (simp add: placeholder_def dict_ok_update)

section \<open>The codes of a built tree\<close>

lemma group_level_map_children:
  assumes "group_level R1 R2 R3 c v"
    and "\<And>cs. dict_ok (heading_level R1 R2 R3 c) cs \<Longrightarrow> dict_ok (heading_level R1 R2 R3 c) (f cs)"
  shows "group_level R1 R2 R3 c (map_children f v)"
  using assms by (simp add: group_level_def children_map_children)

lemma heading_level_map_children:
  assumes "heading_level R1 R2 R3 pc c v"
    and "\<And>cs. dict_ok (subheading_level R2 R3 c) cs \<Longrightarrow> dict_ok (subheading_level R2 R3 c) (f cs)"
  shows "heading_level R1 R2 R3 pc c (map_children f v)"
  using assms by (simp add: heading_level_def children_map_children)

lemma subheading_level_map_children:
  assumes "subheading_level R2 R3 pc c v"
    and "\<And>cs. dict_ok (leaf_level R3 c) cs \<Longrightarrow> dict_ok (leaf_level R3 c) (f cs)"
  shows "subheading_level R2 R3 pc c (map_children f v)"
  using assms by (simp add: subheading_level_def children_map_children)

lemma heading_level_inner_node: "R1 pc c \<Longrightarrow> heading_level R1 R2 R3 pc c (inner_node d n)"
  by (simp add: heading_level_def inner_node_def dict_ok_Nil)

lemma subheading_level_inner_node: "R2 pc c \<Longrightarrow> subheading_level R2 R3 pc c (inner_node d n)"
  by (simp add: subheading_level_def inner_node_def dict_ok_Nil)

lemma group_level_inner_node: "group_level R1 R2 R3 c (inner_node d n)"
  by (simp add: group_level_def inner_node_def dict_ok_Nil)

lemma heading_level_set_description:
  "heading_level R1 R2 R3 pc c v \<Longrightarrow> heading_level R1 R2 R3 pc c (set_description d v)"
  by (simp add: heading_level_def children_set_description)

lemma subheading_level_set_description:
  "subheading_level R2 R3 pc c v \<Longrightarrow> subheading_level R2 R3 pc c (set_description d v)"
  by (simp add: subheading_level_def children_set_description)

lemma group_level_chapter_title:
  "group_level R1 R2 R3 c v \<Longrightarrow> group_level R1 R2 R3 c (chapter_title d v)"
  by (simp add: group_level_def children_chapter_title)

lemma build_row_codes_ok:
  assumes "codes_ok prefix prefix strict_prefix t"
  shows "codes_ok prefix prefix strict_prefix (build_row notes_map t r)"
proof -
  let ?G = "group_level prefix prefix strict_prefix"
  let ?H = "heading_level prefix prefix strict_prefix"
  let ?S = "subheading_level prefix strict_prefix"
  let ?L = "leaf_level strict_prefix"
  let ?ch = "take 2 (HEADER r)"
  let ?hd = "HEADER r"
  let ?sb = "HEADER r @ SUB r"
  let ?fc = "HEADER r @ SUB r @ ITEM r"
  let ?desc = "strip (DESCRIPTION r)"
  let ?t1 = "if \<not> has_key ?ch t
             then AList.update ?ch (inner_node [] (map_of notes_map ?ch)) t else t"
  from assms have t: "dict_ok ?G t" by (simp add: codes_ok_def)
  then have t1: "dict_ok ?G ?t1"
    by (simp add: dict_ok_update group_level_inner_node)
  have p1: "prefix ?ch ?hd" by (rule take_is_prefix)
  have p2: "prefix ?hd ?sb" by simp
  have p3: "ITEM r \<noteq> [] \<Longrightarrow> strict_prefix ?sb ?fc" by (simp add: strict_prefix_def)
  have title: "dict_ok ?G (AList.map_entry ?ch (chapter_title ?desc)
      (AList.map_entry ?ch (map_children (title_row ?hd ?desc)) ?t1))"
    by (intro dict_ok_map_entry group_level_chapter_title group_level_map_children
        dict_ok_title_row heading_level_inner_node heading_level_set_description p1 t1)
  let ?t2 = "AList.map_entry ?ch (map_children (placeholder ?hd)) ?t1"
  have t2: "dict_ok ?G ?t2"
    by (intro dict_ok_map_entry group_level_map_children dict_ok_placeholder
        heading_level_inner_node p1 t1)
  have subtitle: "dict_ok ?G (AList.map_entry ?ch
      (map_children (AList.map_entry ?hd (map_children (title_row ?sb ?desc)))) ?t2)"
    by (intro dict_ok_map_entry group_level_map_children heading_level_map_children
        dict_ok_title_row subheading_level_inner_node subheading_level_set_description p2 t2)
  let ?t3 = "AList.map_entry ?ch
      (map_children (AList.map_entry ?hd (map_children (placeholder ?sb)))) ?t2"
  have t3: "dict_ok ?G ?t3"
    by (intro dict_ok_map_entry group_level_map_children heading_level_map_children
        dict_ok_placeholder subheading_level_inner_node p2 t2)
  have leaf: "dict_ok ?G (AList.map_entry ?ch
      (map_children (AList.map_entry ?hd (map_children (AList.map_entry ?sb
         (map_children (AList.update ?fc n)))))) ?t3)"
    if "ITEM r \<noteq> []" and "children n = []" for n
    by (intro dict_ok_map_entry group_level_map_children heading_level_map_children
        subheading_level_map_children dict_ok_update t3)
       (simp_all add: leaf_level_def p3 that)
  show ?thesis
    unfolding codes_ok_def build_row_def Let_def
    using t title subtitle leaf by simp
qed


lemma foldl_build_row_codes_ok:
  "codes_ok prefix prefix strict_prefix t \<Longrightarrow>
   codes_ok prefix prefix strict_prefix (foldl (build_row notes_map) t df)"
  by (induction df arbitrary: t) (simp_all add: build_row_codes_ok)

text \<open>
  Claim C7, as the code has it. In every built tree no two siblings share a code, the code
  of a heading has the code of its group as a prefix, the code of a subheading has the code
  of its heading as a prefix, the code of a leaf is a strict extension of the code of its
  subheading, and a leaf has no children. The first two need not be strict: the heading
  code is the whole header and the group code its first two characters, and the subheading
  code is the header followed by a sub field that may be empty.
\<close>

theorem build_tree_codes:
  "codes_ok prefix prefix strict_prefix (build_tree raw)"
proof -
  have "codes_ok prefix prefix strict_prefix []"
    by (simp add: codes_ok_def dict_ok_Nil)
  then show ?thesis
    unfolding build_tree_def Let_def by (rule foldl_build_row_codes_ok)
qed

theorem build_tree_codes_witness:
  "build_tree example_rows \<noteq> [] \<and>
   codes_ok prefix prefix strict_prefix (build_tree example_rows)"
  using build_tree_codes [of example_rows] by (simp add: build_example_rows)

lemma build_item_rows:
  "build_tree item_rows =
     [(''01'', Node [] None None None None
        [(''0101'', Node [] None None None None
            [(''0101'', Node [] None None None None
               [(''010110'', Node ''Horses'' None (Some []) (Some []) (Some []) [])])])])]"
  by code_simp

text \<open>The claim as the specification states it, a strict extension at every level, fails
  for the example rows (heading \<open>01\<close> under group \<open>01\<close>); and with the group level set
  aside it fails for a leaf row without a sub field (subheading \<open>0101\<close> under heading
  \<open>0101\<close>).\<close>

theorem codes_not_strict:
  "\<not> codes_ok strict_prefix strict_prefix strict_prefix (build_tree example_rows) \<and>
   \<not> codes_ok prefix strict_prefix strict_prefix (build_tree item_rows)"
  by (simp add: build_example_rows build_item_rows codes_ok_def dict_ok_def group_level_def
      heading_level_def subheading_level_def)

section \<open>Rates\<close>

lemma rateless_inner_node: "rateless (inner_node d n)"
  by (simp add: rateless_def inner_node_def)

lemma rateless_set_description: "rateless (set_description d v) = rateless v"
  by (cases v) (simp add: rateless_def)

lemma rateless_map_children: "rateless (map_children f v) = rateless v"
  by (cases v) (simp add: rateless_def)

lemma rateless_chapter_title: "rateless (chapter_title d v) = rateless v"
  by (simp add: chapter_title_def rateless_set_description)

lemma rateless_group_map_children:
  assumes "rateless_group c v"
    and "\<And>cs. dict_ok rateless_heading cs \<Longrightarrow> dict_ok rateless_heading (f cs)"
  shows "rateless_group c (map_children f v)"
  using assms by (simp add: rateless_group_def rateless_map_children children_map_children)

lemma rateless_heading_map_children:
  assumes "rateless_heading c v"
    and "\<And>cs. dict_ok rateless_subheading cs \<Longrightarrow> dict_ok rateless_subheading (f cs)"
  shows "rateless_heading c (map_children f v)"
  using assms by (simp add: rateless_heading_def rateless_map_children children_map_children)

lemma rateless_subheading_map_children:
  "rateless_subheading c v \<Longrightarrow> rateless_subheading c (map_children f v)"
  by (simp add: rateless_subheading_def rateless_map_children)

lemma rateless_group_inner_node: "rateless_group c (inner_node d n)"
  by (simp add: rateless_group_def rateless_inner_node) (simp add: inner_node_def dict_ok_Nil)

lemma rateless_heading_inner_node: "rateless_heading c (inner_node d n)"
  by (simp add: rateless_heading_def rateless_inner_node) (simp add: inner_node_def dict_ok_Nil)

lemma rateless_subheading_inner_node: "rateless_subheading c (inner_node d n)"
  by (simp add: rateless_subheading_def rateless_inner_node)

lemma rateless_group_chapter_title:
  "rateless_group c v \<Longrightarrow> rateless_group c (chapter_title d v)"
  by (simp add: rateless_group_def rateless_chapter_title children_chapter_title)

lemma rateless_heading_set_description:
  "rateless_heading c v \<Longrightarrow> rateless_heading c (set_description d v)"
  by (simp add: rateless_heading_def rateless_set_description children_set_description)

lemma rateless_subheading_set_description:
  "rateless_subheading c v \<Longrightarrow> rateless_subheading c (set_description d v)"
  by (simp add: rateless_subheading_def rateless_set_description)

lemma build_row_rateless:
  assumes "rateless_above_leaves t"
  shows "rateless_above_leaves (build_row notes_map t r)"
proof -
  let ?ch = "take 2 (HEADER r)"
  let ?hd = "HEADER r"
  let ?sb = "HEADER r @ SUB r"
  let ?fc = "HEADER r @ SUB r @ ITEM r"
  let ?desc = "strip (DESCRIPTION r)"
  let ?t1 = "if \<not> has_key ?ch t
             then AList.update ?ch (inner_node [] (map_of notes_map ?ch)) t else t"
  from assms have t: "dict_ok rateless_group t" by (simp add: rateless_above_leaves_def)
  then have t1: "dict_ok rateless_group ?t1"
    by (simp add: dict_ok_update rateless_group_inner_node)
  have title: "dict_ok rateless_group (AList.map_entry ?ch (chapter_title ?desc)
      (AList.map_entry ?ch (map_children (title_row ?hd ?desc)) ?t1))"
    by (intro dict_ok_map_entry rateless_group_chapter_title rateless_group_map_children
        dict_ok_title_row rateless_heading_inner_node rateless_heading_set_description t1)
  let ?t2 = "AList.map_entry ?ch (map_children (placeholder ?hd)) ?t1"
  have t2: "dict_ok rateless_group ?t2"
    by (intro dict_ok_map_entry rateless_group_map_children dict_ok_placeholder
        rateless_heading_inner_node t1)
  have subtitle: "dict_ok rateless_group (AList.map_entry ?ch
      (map_children (AList.map_entry ?hd (map_children (title_row ?sb ?desc)))) ?t2)"
    by (intro dict_ok_map_entry rateless_group_map_children rateless_heading_map_children
        dict_ok_title_row rateless_subheading_inner_node rateless_subheading_set_description t2)
  let ?t3 = "AList.map_entry ?ch
      (map_children (AList.map_entry ?hd (map_children (placeholder ?sb)))) ?t2"
  have t3: "dict_ok rateless_group ?t3"
    by (intro dict_ok_map_entry rateless_group_map_children rateless_heading_map_children
        dict_ok_placeholder rateless_subheading_inner_node t2)
  have leaf: "dict_ok rateless_group (AList.map_entry ?ch
      (map_children (AList.map_entry ?hd (map_children (AList.map_entry ?sb
         (map_children (AList.update ?fc n)))))) ?t3)" for n
    by (intro dict_ok_map_entry rateless_group_map_children rateless_heading_map_children
        rateless_subheading_map_children t3)
  show ?thesis
    unfolding rateless_above_leaves_def build_row_def Let_def
    using t title subtitle leaf by simp
qed

lemma build_tree_rateless: "rateless_above_leaves (build_tree raw)"
proof -
  have "rateless_above_leaves (foldl (build_row notes_map) t df)"
    if "rateless_above_leaves t" for notes_map t df
    using that by (induction df arbitrary: t) (simp_all add: build_row_rateless)
  moreover have "rateless_above_leaves []"
    by (simp add: rateless_above_leaves_def dict_ok_Nil)
  ultimately show ?thesis
    unfolding build_tree_def Let_def by blast
qed


section \<open>Stopping above the leaf level\<close>

lemma loop_body_dict_ok:
  assumes "dict_ok P (children (current_node_dict s))" and "loop_body llm product s = Inr s'"
  shows "P (chosen_code llm product s) (current_node_dict s')"
  using dict_ok_map_of [OF assms(1) loop_body_Inr(1) [OF assms(2)]] .

lemma steps_one:
  "steps llm product (Suc 0) s = Some s' \<Longrightarrow> loop_body llm product s = Inr s'"
  by (auto split: if_splits sum.splits)

lemma steps_two:
  assumes "steps llm product (Suc (Suc 0)) s = Some s'"
  obtains s1 where "loop_body llm product s = Inr s1" and "loop_body llm product s1 = Inr s'"
proof -
  from assms obtain s1 where "loop_body llm product s = Inr s1"
    and "steps llm product (Suc 0) s1 = Some s'"
    by (auto split: if_splits sum.splits)
  with steps_one that show thesis by blast
qed

lemma steps_three:
  assumes "steps llm product (Suc (Suc (Suc 0))) s = Some s'"
  obtains s1 s2 where "loop_body llm product s = Inr s1"
    and "loop_body llm product s1 = Inr s2" and "loop_body llm product s2 = Inr s'"
proof -
  from assms obtain s1 where "loop_body llm product s = Inr s1"
    and "steps llm product (Suc (Suc 0)) s1 = Some s'"
    by (auto split: if_splits sum.splits)
  with that show thesis by (blast elim: steps_two)
qed

lemma rateless_within_three:
  assumes "rateless_above_leaves t"
    and "steps llm product k (start ost t) = Some s"
    and "0 < k" and "k < 4"
  shows "rateless (current_node_dict s)"
proof -
  from assms(1) have t: "dict_ok rateless_group (children (current_node_dict (start ost t)))"
    by (simp add: rateless_above_leaves_def start_def root_def)
  from assms(3,4) consider "k = Suc 0" | "k = Suc (Suc 0)" | "k = Suc (Suc (Suc 0))"
    by arith
  then show ?thesis
  proof cases
    case 1
    with assms(2) have "loop_body llm product (start ost t) = Inr s"
      by (auto intro: steps_one)
    from loop_body_dict_ok [OF t this] show ?thesis
      by (simp add: rateless_group_def)
  next
    case 2
    with assms(2) obtain s1 where b1: "loop_body llm product (start ost t) = Inr s1"
      and b2: "loop_body llm product s1 = Inr s"
      by (blast elim: steps_two)
    from loop_body_dict_ok [OF t b1]
    have "dict_ok rateless_heading (children (current_node_dict s1))"
      by (simp add: rateless_group_def)
    from loop_body_dict_ok [OF this b2] show ?thesis
      by (simp add: rateless_heading_def)
  next
    case 3
    with assms(2) obtain s1 s2 where b1: "loop_body llm product (start ost t) = Inr s1"
      and b2: "loop_body llm product s1 = Inr s2"
      and b3: "loop_body llm product s2 = Inr s"
      by (blast elim: steps_three)
    from loop_body_dict_ok [OF t b1]
    have "dict_ok rateless_heading (children (current_node_dict s1))"
      by (simp add: rateless_group_def)
    from loop_body_dict_ok [OF this b2]
    have "dict_ok rateless_subheading (children (current_node_dict s2))"
      by (simp add: rateless_heading_def)
    from loop_body_dict_ok [OF this b3] show ?thesis
      by (simp add: rateless_subheading_def)
  qed
qed

text \<open>
  Claim C10. In a built tree, when the loop ends at a node without children after 1, 2 or 3
  steps (a group, heading or subheading, not a leaf item), \<open>classify_product\<close> returns a
  success result, not an error: its path is the path of the loop, its \<open>final_hs_code\<close> is
  the code of the last step, which is the key of that node in its parent's children, and
  the three rates of \<open>tariff_details\<close> are all \<open>None\<close>.
\<close>

theorem stops_above_leaf_level:
  assumes "steps llm product k (start ost (build_tree raw)) = Some s"
    and "children (current_node_dict s) = []"
    and "0 < k" and "k < 4"
  shows "classify_product llm ost (build_tree raw) product =
           Inr (Result \<lparr>product_description = product,
                  full_path = classification_path s,
                  final_hs_code = code (last (classification_path s)),
                  tariff_details = \<lparr>td_import_rate = None, td_export_rate = None,
                                    td_sst_rate = None\<rparr>\<rparr>) \<and>
         length (classification_path s) = k \<and>
         (\<exists>parent. steps llm product (k - 1) (start ost (build_tree raw)) = Some parent \<and>
            map_of (children (current_node_dict parent)) (code (last (classification_path s))) =
              Some (current_node_dict s))"
proof -
  have "while_loop llm product (start ost (build_tree raw)) = while_loop llm product s"
    by (rule steps_while_loop [OF assms(1)])
  also have "\<dots> = Inr s"
    by (rule while_loop_stop [OF assms(2)])
  finally have c: "classify_product llm ost (build_tree raw) product = final_result product s"
    by (simp add: classify_product_def)
  from steps_path_length [OF assms(1)] have len: "length (classification_path s) = k"
    by (simp add: start_def)
  with assms(3) obtain p ps where ne: "classification_path s = p # ps"
    by (cases "classification_path s") auto
  from rateless_within_three [OF build_tree_rateless assms(1,3,4)]
  have "rateless (current_node_dict s)" .
  with c ne have res: "classify_product llm ost (build_tree raw) product =
           Inr (Result \<lparr>product_description = product,
                  full_path = classification_path s,
                  final_hs_code = code (last (classification_path s)),
                  tariff_details = \<lparr>td_import_rate = None, td_export_rate = None,
                                    td_sst_rate = None\<rparr>\<rparr>)"
    by (simp add: final_result_def rateless_def)
  from assms(3) obtain j where k: "k = Suc j" by (cases k) auto
  with steps_last [of llm product j "start ost (build_tree raw)" s] assms(1)
  obtain parent where p: "steps llm product j (start ost (build_tree raw)) = Some parent"
    and b: "loop_body llm product parent = Inr s"
    by blast
  from loop_body_Inr [OF b]
  have "map_of (children (current_node_dict parent)) (code (last (classification_path s))) =
      Some (current_node_dict s)"
    by simp
  with p k res len show ?thesis by auto
qed

lemma build_title_rows:
  "build_tree title_rows =
     [(''01'', Node [] None None None None
        [(''0101'', Node ''Live horses'' None None None None
            [(''010121'', Node ''Pure-bred breeding'' None None None None [])])])]"
  by code_simp

lemma steps_title_rows:
  "steps first_listed ''horse'' (Suc (Suc (Suc 0))) (start () (build_tree title_rows)) =
     Some \<lparr>current_node_dict = Node ''Pure-bred breeding'' None None None None [],
           classification_path =
             [\<lparr>code = ''01'', step_description = [], step_justification = [],
               confidence = 100\<rparr>,
              \<lparr>code = ''0101'', step_description = ''Live horses'', step_justification = [],
               confidence = 100\<rparr>,
              \<lparr>code = ''010121'', step_description = ''Pure-bred breeding'',
               step_justification = [], confidence = 100\<rparr>],
           current_path_str = '' > Live horses > Pure-bred breeding'',
           oracle_state = ()\<rparr>"
  by (simp add: build_title_rows start_def root_def loop_body_def first_listed_def
      make_request_def choices_of_def parent_notes_of_def Let_def)

theorem stops_above_leaf_level_witness:
  "(\<exists>s. steps first_listed ''horse'' (Suc (Suc (Suc 0))) (start () (build_tree title_rows)) =
          Some s \<and>
        children (current_node_dict s) = []) \<and>
   classify_product first_listed () (build_tree title_rows) ''horse'' =
     Inr (Result \<lparr>product_description = ''horse'',
            full_path =
              [\<lparr>code = ''01'', step_description = [], step_justification = [],
                confidence = 100\<rparr>,
               \<lparr>code = ''0101'', step_description = ''Live horses'', step_justification = [],
                confidence = 100\<rparr>,
               \<lparr>code = ''010121'', step_description = ''Pure-bred breeding'',
                step_justification = [], confidence = 100\<rparr>],
            final_hs_code = ''010121'',
            tariff_details = \<lparr>td_import_rate = None, td_export_rate = None,
                              td_sst_rate = None\<rparr>\<rparr>) \<and>
   length ''010121'' < (8 :: nat)"
proof -
  obtain s where s: "steps first_listed ''horse'' (Suc (Suc (Suc 0)))
        (start () (build_tree title_rows)) = Some s"
    and c: "children (current_node_dict s) = []"
    and p: "classification_path s =
              [\<lparr>code = ''01'', step_description = [], step_justification = [],
                confidence = 100\<rparr>,
               \<lparr>code = ''0101'', step_description = ''Live horses'', step_justification = [],
                confidence = 100\<rparr>,
               \<lparr>code = ''010121'', step_description = ''Pure-bred breeding'',
                step_justification = [], confidence = 100\<rparr>]"
    unfolding steps_title_rows by simp
  from stops_above_leaf_level [OF s c] s c p show ?thesis
    by auto
qed

section \<open>The description of a group\<close>

lemma chapter_title_no_effect:
  "desc \<noteq> [] \<Longrightarrow> description ch = [] \<Longrightarrow> chapter_title desc ch = ch"
  by (simp add: chapter_title_def get_or_def)

lemma description_map_children: "description (map_children f v) = description v"
  by (cases v) simp

lemma build_row_group_descriptions:
  assumes "dict_ok (\<lambda>c g. description g = []) t"
  shows "dict_ok (\<lambda>c g. description g = []) (build_row notes_map t r)"
proof -
  let ?P = "\<lambda>c g. description g = []"
  let ?ch = "take 2 (HEADER r)"
  let ?t1 = "if \<not> has_key ?ch t
             then AList.update ?ch (inner_node [] (map_of notes_map ?ch)) t else t"
  from assms have t1: "dict_ok ?P ?t1"
    by (simp add: dict_ok_update inner_node_def)
  have mc: "dict_ok ?P (AList.map_entry ?ch (map_children f) d)" if "dict_ok ?P d" for f d
    using that by (rule dict_ok_map_entry) (simp add: description_map_children)
  have ct: "dict_ok ?P (AList.map_entry ?ch (chapter_title (strip (DESCRIPTION r))) d)"
    if "dict_ok ?P d" for d
    using that by (rule dict_ok_map_entry) (simp add: chapter_title_def get_or_def)
  show ?thesis
    unfolding build_row_def Let_def
    using assms t1 by (simp add: mc ct)
qed

lemma group_descriptions_empty:
  assumes "(c, g) \<in> set (build_tree raw)"
  shows "description g = []"
proof -
  have "dict_ok (\<lambda>c g. description g = []) (foldl (build_row notes_map) t df)"
    if "dict_ok (\<lambda>c g. description g = []) t" for notes_map t df
    using that by (induction df arbitrary: t) (simp_all add: build_row_group_descriptions)
  from this [OF dict_ok_Nil] have "dict_ok (\<lambda>c g. description g = []) (build_tree raw)"
    by (simp add: build_tree_def Let_def)
  with assms show ?thesis
    by (auto simp: dict_ok_def)
qed

text \<open>
  Claim C2 fails in the code. The first row of the example is the first heading title row
  of group \<open>01\<close>. The group was created with the description \<open>""\<close>, so the comparison of
  line 94 is \<open>12 < 0\<close>: the group's description stays empty, and the heading \<open>01\<close> gets the
  description.
\<close>

theorem group_description_not_set:
  "build_tree [mk_row ''01'' [] [] ''Live animals''] =
     [(''01'', Node [] None None None None
        [(''01'', Node ''Live animals'' None None None None [])])]"
  by code_simp

section \<open>Note blocks\<close>

text \<open>On the frame as read, with NaN in the empty header cells, the block of \<open>note_rows\<close>
  has three lines.\<close>

lemma parse_notes_unfilled:
  "parse_notes note_rows =
     [(''01'', ''Chapter Notes.'' @ [CHR 0x0A] @
               ''1. This Chapter covers all live animals.'' @ [CHR 0x0A] @
               ''2. Except fish.'')]"
  by code_simp

text \<open>
  Claim C3 fails in the code. \<open>build_tree\<close> calls \<open>parse_notes\<close> on the frame after
  \<open>fillna('')\<close>, where an empty header is the string \<open>""\<close> and \<open>pd.isna\<close> is false: the
  first continuation row ends the block, and the note of group \<open>01\<close> is the marker line
  alone, one line instead of three.
\<close>

theorem note_block_loses_continuation_rows:
  "parse_notes (as_frame (fillna note_rows)) = [(''01'', ''Chapter Notes.'')] \<and>
   build_tree note_rows =
     [(''01'', Node [] (Some ''Chapter Notes.'') None None None
        [(''0101'', Node ''Live horses'' None None None None [])])]"
  by code_simp

section \<open>Building twice\<close>

text \<open>
  Claim C9. With the cache check bypassed, the tree file and the notes file after a run
  are determined by the frame alone: whatever the files held before, the run writes the tree
  \<open>build_tree csv\<close> and the notes parsed from the filled frame. So two runs on the same
  rows leave equal trees (the same keys in the same order at every level, the same
  descriptions, notes and rate strings) and equal notes, and a second run on the files
  that the first run left reproduces them.
\<close>

theorem rebuild_reproduces:
  "tree_json (rebuild csv fs) = Some (build_tree csv) \<and>
   notes_json (rebuild csv fs) = Some (parse_notes (as_frame (fillna csv))) \<and>
   tree_json (rebuild csv fs) = tree_json (rebuild csv fs') \<and>
   notes_json (rebuild csv fs) = notes_json (rebuild csv fs') \<and>
   rebuild csv (rebuild csv fs) = rebuild csv fs"
  by (simp add: rebuild_def run_build_tree_def)

text \<open>With the cache check in place, a second run finds the tree file and changes
  nothing.\<close>

lemma run_build_tree_twice:
  "run_build_tree csv (run_build_tree csv fs) = run_build_tree csv fs"
  by (simp add: run_build_tree_def)

theorem rebuild_reproduces_witness:
  "tree_json (rebuild example_rows \<lparr>tree_json = Some [], notes_json = None\<rparr>) =
     Some
       [(''01'', Node [] None None None None
          [(''01'', Node ''Live animals'' None None None None []),
           (''0101'', Node ''Live horses'' None None None None
              [(''010121'', Node ''Pure-bred breeding'' None None None None
                 [(''01012110'',
                   Node ''Horses'' None (Some ''0%'') (Some ''0%'') (Some ''Free'') [])])])])] \<and>
   rebuild example_rows (rebuild example_rows \<lparr>tree_json = Some [], notes_json = None\<rparr>) =
     rebuild example_rows \<lparr>tree_json = Some [], notes_json = None\<rparr>"
  using rebuild_reproduces [of example_rows "\<lparr>tree_json = Some [], notes_json = None\<rparr>"]
  by (simp add: build_example_rows)

end
